theory Spec2Isabelle
  imports Complex_Main
begin

section \<open>Data model of the filter result\<close>

text \<open>
  The result object is the prop type of \<^verbatim>\<open>PreviewPanel.vue\<close> (and the type of
  \<^verbatim>\<open>filterResult\<close> in \<^verbatim>\<open>FilterTab.vue\<close>). JavaScript numbers that hold
  identifiers, counts and timestamps are modelled as \<open>int\<close>; a field of type
  \<^verbatim>\<open>T | null\<close> is an \<open>option\<close>. The field \<^verbatim>\<open>id\<close> is named \<open>id_msg\<close> and
  \<^verbatim>\<open>type\<close> is named \<open>type_msg\<close>, since \<open>id\<close> and \<open>type\<close> are taken in HOL.
\<close>

text \<open>\<^verbatim>\<open>ChatRecordMessage\<close>: what the message list consumes (no hit flag).\<close>

record chatRecordMessage =
  id_msg :: int
  senderName :: string
  senderPlatformId :: string
  senderAliases :: "string list"
  senderAvatar :: "string option"
  content :: string
  timestamp :: int
  type_msg :: int
  replyToMessageId :: "string option"
  replyToContent :: "string option"
  replyToSenderName :: "string option"

text \<open>\<^verbatim>\<open>FilterMessage\<close>: the same fields and the hit flag.\<close>

record filterMessage = chatRecordMessage +
  isHit :: bool

record block =
  startTs :: int
  endTs :: int
  messages :: "filterMessage list"
  hitCount :: int

record filterStats =
  totalMessages :: int
  hitMessages :: int
  totalChars :: int

record filterResult =
  blocks :: "block list"
  stats :: filterStats

section \<open>Token estimate (FilterTab)\<close>

text \<open>
  \<^verbatim>\<open>estimatedTokens\<close> is \<^verbatim>\<open>Math.ceil(filterResult.value.stats.totalChars * 1.5)\<close>, and 0
  when there is no result. JavaScript numbers are IEEE 754 doubles, so the product is
  the exact product rounded to the nearest double, ties to the even significand, and
  the model computes it that way.

  A double has a significand of 53 bits. \<open>bitLength m\<close> is the number of bits of a
  positive integer, and \<open>roundToEven53 m\<close> rounds a non-negative integer to 53
  significant bits: an integer of at most 53 bits is kept, a longer one is rounded to
  the nearest multiple of \<open>2 ^ (bitLength m - 53)\<close>, a tie going to the multiple
  with the even quotient.
\<close>

function bitLength :: "int \<Rightarrow> nat" where
  "bitLength n = (if n \<le> 0 then 0 else Suc (bitLength (n div 2)))"
  by pat_completeness auto
termination
  by (relation "measure nat") auto

declare bitLength.simps [simp del]

definition roundToEven53 :: "int \<Rightarrow> int" where
  "roundToEven53 m =
     (if bitLength m \<le> 53 then m
      else let q = 2 ^ (bitLength m - 53);
               k = m div q;
               r = m mod q
           in (if 2 * r < q then k
               else if q < 2 * r then k + 1
               else if even k then k
               else k + 1) * q)"

text \<open>
  The numbers that occur here: a finite value or an infinity (no operation below
  produces NaN from an integer count).
\<close>

datatype jsNumber = NegInfinity | Number rat | PosInfinity

text \<open>
  \<open>doubleOfHalves h\<close> is the double nearest to \<open>h / 2\<close>. The magnitude is
  rounded to 53 significant bits; a rounded magnitude of \<open>2 ^ 1024\<close> or more (that
  is \<open>2 ^ 1025\<close> halves) is beyond the largest double and gives an infinity.
\<close>

definition doubleOfHalves :: "int \<Rightarrow> jsNumber" where
  "doubleOfHalves h =
     (let m = roundToEven53 \<bar>h\<bar>
      in if 2 ^ 1025 \<le> m then (if h < 0 then NegInfinity else PosInfinity)
         else Number (rat_of_int (sgn h * m) / 2))"

text \<open>
  \<^verbatim>\<open>totalChars * 1.5\<close> for an integer count \<open>c\<close>. The field holds the double
  nearest to \<open>c\<close> (\<open>c\<close> itself up to \<open>2 ^ 53\<close> in magnitude, an infinity from
  \<open>2 ^ 1024\<close> on); the product of that double and 1.5 is three times it, in halves,
  rounded to a double.
\<close>

definition timesOneAndHalf :: "int \<Rightarrow> jsNumber" where
  "timesOneAndHalf c =
     (let d = sgn c * roundToEven53 \<bar>c\<bar>
      in if 2 ^ 1024 \<le> \<bar>d\<bar> then (if d < 0 then NegInfinity else PosInfinity)
         else doubleOfHalves (3 * d))"

fun Math_ceil :: "jsNumber \<Rightarrow> jsNumber" where
  "Math_ceil NegInfinity = NegInfinity"
| "Math_ceil (Number x) = Number (rat_of_int \<lceil>x\<rceil>)"
| "Math_ceil PosInfinity = PosInfinity"

text \<open>The comparisons \<^verbatim>\<open><\<close> and \<^verbatim>\<open><=\<close> of two such numbers.\<close>

fun js_lt :: "jsNumber \<Rightarrow> jsNumber \<Rightarrow> bool" where
  "js_lt NegInfinity NegInfinity = False"
| "js_lt NegInfinity y = True"
| "js_lt (Number x) NegInfinity = False"
| "js_lt (Number x) (Number y) = (x < y)"
| "js_lt (Number x) PosInfinity = True"
| "js_lt PosInfinity y = False"

fun js_le :: "jsNumber \<Rightarrow> jsNumber \<Rightarrow> bool" where
  "js_le NegInfinity y = True"
| "js_le (Number x) NegInfinity = False"
| "js_le (Number x) (Number y) = (x \<le> y)"
| "js_le (Number x) PosInfinity = True"
| "js_le PosInfinity PosInfinity = True"
| "js_le PosInfinity y = False"

datatype tokenColour = green | yellow | red

definition estimatedTokens :: "filterResult option \<Rightarrow> jsNumber" where
  "estimatedTokens fr =
     (case fr of
        None \<Rightarrow> Number 0
      | Some r \<Rightarrow> Math_ceil (timesOneAndHalf (totalChars (stats r))))"

definition tokenStatus :: "filterResult option \<Rightarrow> tokenColour" where
  "tokenStatus fr =
     (let tokens = estimatedTokens fr
      in if js_lt tokens (Number 50000) then green
         else if js_lt tokens (Number 100000) then yellow
         else red)"

text \<open>A result whose only relevant content is its character count.\<close>

definition resultWithChars :: "int \<Rightarrow> filterResult" where
  "resultWithChars n =
     \<lparr>blocks = [], stats = \<lparr>totalMessages = 0, hitMessages = 0, totalChars = n\<rparr>\<rparr>"

section \<open>Preview panel: state\<close>

text \<open>
  The component state of \<^verbatim>\<open>PreviewPanel.vue\<close>: the props \<^verbatim>\<open>result\<close> and
  \<^verbatim>\<open>isLoading\<close>, the refs \<^verbatim>\<open>selectedBlockIndex\<close> and
  \<^verbatim>\<open>pendingScrollToMessageId\<close>, and the flag \<^verbatim>\<open>isBlockSwitching\<close>. The effects
  on the outside are kept as data: the callbacks handed to \<^verbatim>\<open>setTimeout\<close> that
  have not run yet (the 100 ms callbacks with the message id each one captured, oldest
  first, and the number of 300 ms callbacks), and the calls received so far by the
  message list (\<^verbatim>\<open>scrollToMessage\<close>) and by the block list virtualizer
  (\<^verbatim>\<open>scrollToIndex\<close>).
\<close>

record previewPanel =
  result :: "filterResult option"
  isLoading :: bool
  selectedBlockIndex :: int
  isBlockSwitching :: bool
  pendingScrollToMessageId :: "int option"
  scrollTimers :: "int list"
  settleTimers :: nat
  messageListScrolls :: "int list"
  blockListScrolls :: "int list"

text \<open>The state right after the component is set up (the initial values of the refs).\<close>

definition mounted :: "filterResult option \<Rightarrow> previewPanel" where
  "mounted r =
     \<lparr>result = r, isLoading = False, selectedBlockIndex = 0, isBlockSwitching = False,
      pendingScrollToMessageId = None, scrollTimers = [], settleTimers = 0,
      messageListScrolls = [], blockListScrolls = []\<rparr>"

section \<open>Preview panel: result projection\<close>

text \<open>
  Reading a JavaScript array at an index: outside \<open>[0, length)\<close> the read gives
  \<^verbatim>\<open>undefined\<close> (here \<open>None\<close>), it does not throw.
\<close>

definition js_index :: "'a list \<Rightarrow> int \<Rightarrow> 'a option" where
  "js_index xs i = (if 0 \<le> i \<and> i < int (length xs) then Some (xs ! nat i) else None)"

definition getBlockAtReversedIndex :: "previewPanel \<Rightarrow> int \<Rightarrow> block option" where
  "getBlockAtReversedIndex s index =
     (case result s of
        None \<Rightarrow> None
      | Some r \<Rightarrow>
          (let originalIndex = int (length (blocks r)) - 1 - index
           in js_index (blocks r) originalIndex))"

definition blockCount :: "previewPanel \<Rightarrow> int" where
  "blockCount s = (case result s of None \<Rightarrow> 0 | Some r \<Rightarrow> int (length (blocks r)))"

definition toChatRecordMessage :: "filterMessage \<Rightarrow> chatRecordMessage" where
  "toChatRecordMessage m =
     \<lparr>id_msg = id_msg m,
      senderName = senderName m,
      senderPlatformId = senderPlatformId m,
      senderAliases = senderAliases m,
      senderAvatar = senderAvatar m,
      content = content m,
      timestamp = timestamp m,
      type_msg = type_msg m,
      replyToMessageId = replyToMessageId m,
      replyToContent = replyToContent m,
      replyToSenderName = replyToSenderName m\<rparr>"

definition currentBlockMessages :: "previewPanel \<Rightarrow> chatRecordMessage list" where
  "currentBlockMessages s =
     (if blockCount s = 0 then []
      else case getBlockAtReversedIndex s (selectedBlockIndex s) of
             None \<Rightarrow> []
           | Some b \<Rightarrow> map toChatRecordMessage (messages b))"

definition hitMessageIds :: "previewPanel \<Rightarrow> int list" where
  "hitMessageIds s =
     (if blockCount s = 0 then []
      else case getBlockAtReversedIndex s (selectedBlockIndex s) of
             None \<Rightarrow> []
           | Some b \<Rightarrow> map id_msg (filter isHit (messages b)))"

text \<open>
  The message list exists only in the last branch of the template's
  \<^verbatim>\<open>v-if\<close> chain (not loading, a result, at least one block) and under its own
  \<^verbatim>\<open>v-if="currentBlockMessages.length > 0"\<close>; otherwise \<^verbatim>\<open>messageListRef.value\<close>
  is null.
\<close>

definition messageListRendered :: "previewPanel \<Rightarrow> bool" where
  "messageListRendered s =
     (\<not> isLoading s \<and>
      (case result s of None \<Rightarrow> False | Some r \<Rightarrow> blocks r \<noteq> []) \<and>
      currentBlockMessages s \<noteq> [])"

section \<open>Preview panel: navigation\<close>

definition selectBlock :: "int \<Rightarrow> previewPanel \<Rightarrow> previewPanel" where
  "selectBlock index s =
     (let s1 = s\<lparr>selectedBlockIndex := index\<rparr>
      in case getBlockAtReversedIndex s1 index of
           None \<Rightarrow> s1
         | Some b \<Rightarrow>
             (case find isHit (messages b) of
                None \<Rightarrow> s1
              | Some firstHitMessage \<Rightarrow>
                  s1\<lparr>pendingScrollToMessageId := Some (id_msg firstHitMessage)\<rparr>))"

definition scrollToBlockInList :: "int \<Rightarrow> previewPanel \<Rightarrow> previewPanel" where
  "scrollToBlockInList index s = s\<lparr>blockListScrolls := blockListScrolls s @ [index]\<rparr>"

definition goToNextBlock :: "previewPanel \<Rightarrow> previewPanel" where
  "goToNextBlock s =
     (if isBlockSwitching s then s
      else if blockCount s = 0 then s
      else if selectedBlockIndex s < blockCount s - 1 then
        (let s1 = s\<lparr>isBlockSwitching := True\<rparr>;
             s2 = s1\<lparr>selectedBlockIndex := selectedBlockIndex s1 + 1\<rparr>;
             s3 = scrollToBlockInList (selectedBlockIndex s2) s2
         in s3\<lparr>settleTimers := Suc (settleTimers s3)\<rparr>)
      else s)"

definition goToPrevBlock :: "previewPanel \<Rightarrow> previewPanel" where
  "goToPrevBlock s = s"

text \<open>The body of the 300 ms callback set up by \<^verbatim>\<open>goToNextBlock\<close>.\<close>

definition settleTimerCallback :: "previewPanel \<Rightarrow> previewPanel" where
  "settleTimerCallback s = s\<lparr>isBlockSwitching := False\<rparr>"

section \<open>Preview panel: watchers\<close>

text \<open>The callback of \<^verbatim>\<open>watch(() => props.result, ...)\<close>.\<close>

definition resultWatcher :: "previewPanel \<Rightarrow> previewPanel" where
  "resultWatcher s = s\<lparr>selectedBlockIndex := 0, pendingScrollToMessageId := None\<rparr>"

text \<open>
  The callback of \<^verbatim>\<open>watch(pendingScrollToMessageId, ...)\<close>: for a non-null id it
  awaits the next tick and hands a callback that captured the id to
  \<^verbatim>\<open>setTimeout(..., 100)\<close>.
\<close>

definition pendingWatcher :: "int option \<Rightarrow> previewPanel \<Rightarrow> previewPanel" where
  "pendingWatcher messageId s =
     (case messageId of
        None \<Rightarrow> s
      | Some m \<Rightarrow> s\<lparr>scrollTimers := scrollTimers s @ [m]\<rparr>)"

text \<open>
  The body of that 100 ms callback:
  \<^verbatim>\<open>messageListRef.value?.scrollToMessage(messageId)\<close>, then the pending id is set
  to null.
\<close>

definition scrollTimerCallback :: "int \<Rightarrow> previewPanel \<Rightarrow> previewPanel" where
  "scrollTimerCallback messageId s =
     (let s1 = (if messageListRendered s
                then s\<lparr>messageListScrolls := messageListScrolls s @ [messageId]\<rparr>
                else s)
      in s1\<lparr>pendingScrollToMessageId := None\<rparr>)"

section \<open>Preview panel: the event loop\<close>

text \<open>
  Everything runs on the single UI thread, one task at a time. A task is a click on
  row \<open>i\<close> of the block list, a \<^verbatim>\<open>reach-bottom\<close> or \<^verbatim>\<open>reach-top\<close> signal of
  the message list, the parent passing a new \<^verbatim>\<open>result\<close>, or the oldest outstanding
  timer callback of either kind running (all callbacks of one kind have the same delay,
  so they run in the order they were set up). A new \<^verbatim>\<open>result\<close> is a change of the
  prop, so the watcher of the prop runs its callback in that task. After a task the
  watcher of \<^verbatim>\<open>pendingScrollToMessageId\<close> runs its callback iff the ref's value
  differs from the one it had before the task, as a Vue watcher on a ref does. Time is
  not measured: a timer callback may run at any point after it was set up, which
  includes every order the real delays allow.
\<close>

datatype event =
    ClickBlock int
  | ReachBottom
  | ReachTop
  | ResultChanged "filterResult option"
  | ScrollTimerFires
  | SettleTimerFires

fun handle :: "event \<Rightarrow> previewPanel \<Rightarrow> previewPanel" where
  "handle (ClickBlock i) s = selectBlock i s"
| "handle ReachBottom s = goToNextBlock s"
| "handle ReachTop s = goToPrevBlock s"
| "handle (ResultChanged r) s = resultWatcher (s\<lparr>result := r\<rparr>)"
| "handle ScrollTimerFires s =
     (case scrollTimers s of
        [] \<Rightarrow> s
      | m # ms \<Rightarrow> scrollTimerCallback m (s\<lparr>scrollTimers := ms\<rparr>))"
| "handle SettleTimerFires s =
     (case settleTimers s of
        0 \<Rightarrow> s
      | Suc n \<Rightarrow> settleTimerCallback (s\<lparr>settleTimers := n\<rparr>))"

definition flushWatchers :: "int option \<Rightarrow> previewPanel \<Rightarrow> previewPanel" where
  "flushWatchers oldValue s =
     (if pendingScrollToMessageId s = oldValue then s
      else pendingWatcher (pendingScrollToMessageId s) s)"

definition step :: "event \<Rightarrow> previewPanel \<Rightarrow> previewPanel" where
  "step e s = flushWatchers (pendingScrollToMessageId s) (handle e s)"

fun run :: "event list \<Rightarrow> previewPanel \<Rightarrow> previewPanel" where
  "run [] s = s"
| "run (e # es) s = run es (step e s)"

text \<open>
  A state is settled when a 300 ms callback is outstanding exactly while
  \<^verbatim>\<open>isBlockSwitching\<close> is set, and then only one. The debounce window is the time
  during which that one callback is outstanding.
\<close>

definition settled :: "previewPanel \<Rightarrow> bool" where
  "settled s = (settleTimers s = (if isBlockSwitching s then 1 else 0))"

section \<open>Session picker\<close>

text \<open>
  \<^verbatim>\<open>SessionPanel.vue\<close>. A JavaScript \<^verbatim>\<open>Set\<close> of numbers is a list without
  repetition in insertion order, which is the order \<^verbatim>\<open>Array.from\<close> reads it in.
\<close>

definition Set_has :: "int list \<Rightarrow> int \<Rightarrow> bool" where
  "Set_has s x = (x \<in> set s)"

definition Set_add :: "int \<Rightarrow> int list \<Rightarrow> int list" where
  "Set_add x s = (if x \<in> set s then s else s @ [x])"

definition Set_delete :: "int \<Rightarrow> int list \<Rightarrow> int list" where
  "Set_delete x s = removeAll x s"

record chatSession =
  id_session :: int
  startTs_session :: int
  endTs_session :: int
  messageCount :: int
  firstMessageId :: int

text \<open>
  \<^verbatim>\<open>ListItem\<close>: \<^verbatim>\<open>flatItems\<close> builds a date header with the date and the number
  of its sessions, or a session row with the session and its date, and nothing else.
\<close>

datatype listItem =
    DateItem string nat
  | SessionItem chatSession string

record sessionPanel =
  flatItems :: "listItem list"
  selectedSet :: "int list"
  selectedIds :: "int list"

fun isSessionOfDate :: "string \<Rightarrow> listItem \<Rightarrow> bool" where
  "isSessionOfDate date (DateItem d n) = False"
| "isSessionOfDate date (SessionItem session d) = (d = date)"

fun sessionIdOf :: "listItem \<Rightarrow> int option" where
  "sessionIdOf (DateItem d n) = None"
| "sessionIdOf (SessionItem session d) = Some (id_session session)"

definition getSessionIdsForDate :: "sessionPanel \<Rightarrow> string \<Rightarrow> int list" where
  "getSessionIdsForDate s date =
     List.map_filter sessionIdOf (filter (isSessionOfDate date) (flatItems s))"

text \<open>
  The callback of \<^verbatim>\<open>watch(selectedIds, ...)\<close>: the internal set is built anew from
  the bound array, \<^verbatim>\<open>new Set(newIds)\<close>.
\<close>

definition selectedIdsWatcher :: "sessionPanel \<Rightarrow> sessionPanel" where
  "selectedIdsWatcher s = s\<lparr>selectedSet := fold Set_add (selectedIds s) []\<rparr>"

definition isSelected :: "sessionPanel \<Rightarrow> int \<Rightarrow> bool" where
  "isSelected s x = Set_has (selectedSet s) x"

definition toggleSession :: "int \<Rightarrow> sessionPanel \<Rightarrow> sessionPanel" where
  "toggleSession x s =
     (let newSet = (if Set_has (selectedSet s) x
                    then Set_delete x (selectedSet s)
                    else Set_add x (selectedSet s))
      in s\<lparr>selectedSet := newSet, selectedIds := newSet\<rparr>)"

definition selectDate :: "string \<Rightarrow> sessionPanel \<Rightarrow> sessionPanel" where
  "selectDate date s =
     (let sessionIds = getSessionIdsForDate s date;
          allSelected = list_all (Set_has (selectedSet s)) sessionIds;
          newSet = (if allSelected
                    then fold Set_delete sessionIds (selectedSet s)
                    else fold Set_add sessionIds (selectedSet s))
      in s\<lparr>selectedSet := newSet, selectedIds := newSet\<rparr>)"

definition isDateFullySelected :: "sessionPanel \<Rightarrow> string \<Rightarrow> bool" where
  "isDateFullySelected s date =
     (let sessionIds = getSessionIdsForDate s date
      in length sessionIds > 0 \<and> list_all (Set_has (selectedSet s)) sessionIds)"

section \<open>Concrete inputs\<close>

text \<open>A text message with the given id and hit flag.\<close>

definition message :: "int \<Rightarrow> bool \<Rightarrow> filterMessage" where
  "message i h =
     \<lparr>id_msg = i, senderName = ''ann'', senderPlatformId = ''u1'', senderAliases = [],
      senderAvatar = None, content = ''hello'', timestamp = 1700000000 + i, type_msg = 0,
      replyToMessageId = None, replyToContent = None, replyToSenderName = None,
      isHit = h\<rparr>"

text \<open>
  Three blocks in storage order (oldest first): two hits, no hit, one hit. Row 0 of the
  block list shows the last of them.
\<close>

definition oldBlock :: block where
  "oldBlock =
     \<lparr>startTs = 1700000001, endTs = 1700000003,
      messages = [message 1 False, message 2 True, message 3 True], hitCount = 2\<rparr>"

definition midBlock :: block where
  "midBlock =
     \<lparr>startTs = 1700000004, endTs = 1700000005,
      messages = [message 4 False, message 5 False], hitCount = 0\<rparr>"

definition newBlock :: block where
  "newBlock =
     \<lparr>startTs = 1700000006, endTs = 1700000007,
      messages = [message 6 True, message 7 False], hitCount = 1\<rparr>"

definition threeBlocks :: filterResult where
  "threeBlocks =
     \<lparr>blocks = [oldBlock, midBlock, newBlock],
      stats = \<lparr>totalMessages = 7, hitMessages = 3, totalChars = 35\<rparr>\<rparr>"

definition session :: "int \<Rightarrow> chatSession" where
  "session i =
     \<lparr>id_session = i, startTs_session = 1700000000, endTs_session = 1700000600,
      messageCount = 12, firstMessageId = 100 * i\<rparr>"

text \<open>One day with two sessions, nothing selected.\<close>

definition oneDay :: sessionPanel where
  "oneDay =
     \<lparr>flatItems = [DateItem ''2024/1/5'' 2,
                   SessionItem (session 1) ''2024/1/5'',
                   SessionItem (session 2) ''2024/1/5''],
      selectedSet = [], selectedIds = []\<rparr>"

section \<open>Token estimate: arithmetic\<close>

text \<open>
  An integer has at most \<open>k\<close> bits iff it is below \<open>2 ^ k\<close>. So rounding to 53
  bits keeps every integer below \<open>2 ^ 53\<close>, and never takes a larger one below
  \<open>2 ^ 53\<close>.
\<close>

lemma bitLength_le_iff: "bitLength m \<le> k \<longleftrightarrow> m < 2 ^ k"
proof (induction k arbitrary: m)
  case 0
  show ?case
    by (subst bitLength.simps) simp
next
  case (Suc k)
  have pos: "(0::int) < 2 ^ k"
    by simp
  have "bitLength m \<le> Suc k \<longleftrightarrow> m \<le> 0 \<or> bitLength (m div 2) \<le> k"
    by (subst bitLength.simps) simp
  also have "\<dots> \<longleftrightarrow> m \<le> 0 \<or> m div 2 < 2 ^ k"
    by (simp only: Suc.IH)
  also have "\<dots> \<longleftrightarrow> m < 2 * 2 ^ k"
    using pos by linarith
  finally show ?case
    by simp
qed

lemma roundToEven53_exact: "m < 9007199254740992 \<Longrightarrow> roundToEven53 m = m"
  by (simp add: roundToEven53_def bitLength_le_iff)

lemma roundToEven53_lower:
  assumes "9007199254740992 \<le> m"
  shows "9007199254740992 \<le> roundToEven53 m"
proof -
  define b where "b = bitLength m"
  have b: "53 < b"
    using assms bitLength_le_iff [of m 53] by (simp add: b_def)
  define q :: int where "q = 2 ^ (b - 53)"
  have qpos: "0 < q"
    by (simp add: q_def)
  obtain j where j: "b - 53 = Suc j"
    using b by (cases "b - 53") simp_all
  have "(1::int) \<le> 2 ^ j"
    by simp
  then have q2: "2 \<le> q"
    by (simp add: q_def j)
  have "\<not> bitLength m \<le> b - 1"
    using b by (simp add: b_def)
  then have low: "2 ^ (b - 1) \<le> m"
    by (simp add: bitLength_le_iff)
  have "(2::int) ^ 52 * q = 2 ^ (52 + (b - 53))"
    by (simp only: q_def power_add)
  also have "52 + (b - 53) = b - 1"
    using b by simp
  finally have "2 ^ 52 * q \<le> m"
    using low by simp
  then have "(2 ^ 52 * q) div q \<le> m div q"
    using qpos by (rule zdiv_mono1)
  then have k: "2 ^ 52 \<le> m div q"
    using qpos by simp
  define k' where "k' = (if 2 * (m mod q) < q then m div q
               else if q < 2 * (m mod q) then m div q + 1
               else if even (m div q) then m div q
               else m div q + 1)"
  have "m div q \<le> k'"
    by (simp add: k'_def)
  with k have k'52: "2 ^ 52 \<le> k'"
    by simp
  have "0 \<le> k'"
    using k'52 by simp
  with k'52 q2 have "(2::int) ^ 52 * 2 \<le> k' * q"
    by (intro mult_mono) simp_all
  moreover have "roundToEven53 m = k' * q"
    using b by (simp add: roundToEven53_def k'_def q_def b_def Let_def)
  ultimately show ?thesis
    by simp
qed

lemma timesOneAndHalf_exact:
  assumes "\<bar>c\<bar> \<le> 3002399751580330"
  shows "timesOneAndHalf c = Number (rat_of_int (3 * c) / 2)"
proof -
  have small: "(9007199254740992::int) \<le> 2 ^ 1024"
    using power_increasing [of 53 1024 "2::int"] by simp
  have small': "(9007199254740992::int) \<le> 2 ^ 1025"
    using power_increasing [of 53 1025 "2::int"] by simp
  have c: "roundToEven53 \<bar>c\<bar> = \<bar>c\<bar>"
    using assms by (intro roundToEven53_exact) simp
  have d: "sgn c * \<bar>c\<bar> = c"
    by (simp add: mult_sgn_abs)
  have h: "roundToEven53 \<bar>3 * c\<bar> = \<bar>3 * c\<bar>"
    using assms by (intro roundToEven53_exact) simp
  have hs: "sgn (3 * c) * \<bar>3 * c\<bar> = 3 * c"
    by (rule mult_sgn_abs)
  have n1: "\<not> 2 ^ 1024 \<le> \<bar>c\<bar>"
    using assms small by linarith
  have n2: "\<not> 2 ^ 1025 \<le> \<bar>3 * c\<bar>"
    using assms small' by linarith
  show ?thesis
    unfolding timesOneAndHalf_def doubleOfHalves_def Let_def c d h hs
    using n1 n2 by simp
qed

lemma estimatedTokens_Some:
  assumes "\<bar>totalChars (stats r)\<bar> \<le> 3002399751580330"
  shows "estimatedTokens (Some r) = Number (rat_of_int ((3 * totalChars (stats r) + 1) div 2))"
proof -
  have "\<lceil>rat_of_int (3 * totalChars (stats r)) / rat_of_int 2\<rceil>
          = - ((- (3 * totalChars (stats r))) div 2)"
    by (simp only: ceiling_divide_eq_div)
  also have "\<dots> = (3 * totalChars (stats r) + 1) div 2"
    by presburger
  finally show ?thesis
    using timesOneAndHalf_exact [OF assms] by (simp add: estimatedTokens_def)
qed

lemma timesOneAndHalf_large:
  assumes "3002399751580330 < c"
  shows "timesOneAndHalf c = PosInfinity \<or>
         (\<exists>x. timesOneAndHalf c = Number x \<and> 4503599627370496 \<le> x)"
proof -
  define d where "d = roundToEven53 \<bar>c\<bar>"
  have d: "3002399751580330 < d"
  proof (cases "\<bar>c\<bar> < 9007199254740992")
    case True
    then show ?thesis
      using assms by (simp add: d_def roundToEven53_exact)
  next
    case False
    then have "9007199254740992 \<le> d"
      unfolding d_def by (intro roundToEven53_lower) simp
    then show ?thesis
      by simp
  qed
  have sd: "sgn c * d = d"
    using assms by simp
  define m where "m = roundToEven53 \<bar>3 * d\<bar>"
  have m: "9007199254740992 \<le> m"
    unfolding m_def using d by (intro roundToEven53_lower) simp
  have sm: "sgn (3 * d) * m = m"
    using d by (simp add: sgn_mult)
  have bound: "4503599627370496 \<le> rat_of_int m / 2"
  proof -
    have "rat_of_int 9007199254740992 \<le> rat_of_int m"
      using m by (simp only: of_int_le_iff)
    then show ?thesis
      by simp
  qed
  have eq: "timesOneAndHalf c =
      (if 2 ^ 1024 \<le> \<bar>d\<bar> then PosInfinity
       else if 2 ^ 1025 \<le> m then PosInfinity
       else Number (rat_of_int m / 2))"
    unfolding timesOneAndHalf_def doubleOfHalves_def Let_def d_def [symmetric] sd
      m_def [symmetric] sm
    using d by simp
  show ?thesis
  proof (cases "2 ^ 1024 \<le> \<bar>d\<bar> \<or> 2 ^ 1025 \<le> m")
    case True
    then have "timesOneAndHalf c = PosInfinity"
      by (auto simp add: eq)
    then show ?thesis ..
  next
    case False
    then have "timesOneAndHalf c = Number (rat_of_int m / 2)"
      by (simp add: eq)
    with bound show ?thesis
      by blast
  qed
qed

lemma timesOneAndHalf_large_negative:
  assumes "c < - 3002399751580330"
  shows "timesOneAndHalf c = NegInfinity \<or>
         (\<exists>x. timesOneAndHalf c = Number x \<and> x \<le> - 4503599627370496)"
proof -
  define d where "d = roundToEven53 \<bar>c\<bar>"
  have d: "3002399751580330 < d"
  proof (cases "\<bar>c\<bar> < 9007199254740992")
    case True
    then show ?thesis
      using assms by (simp add: d_def roundToEven53_exact)
  next
    case False
    then have "9007199254740992 \<le> d"
      unfolding d_def by (intro roundToEven53_lower) simp
    then show ?thesis
      by simp
  qed
  have sd: "sgn c * d = - d"
    using assms by simp
  define m where "m = roundToEven53 \<bar>3 * - d\<bar>"
  have m: "9007199254740992 \<le> m"
    unfolding m_def using d by (intro roundToEven53_lower) simp
  have sm: "sgn (3 * - d) * m = - m"
    using d by (simp add: sgn_mult)
  have bound: "rat_of_int (- m) / 2 \<le> - 4503599627370496"
  proof -
    have "rat_of_int 9007199254740992 \<le> rat_of_int m"
      using m by (simp only: of_int_le_iff)
    then show ?thesis
      by simp
  qed
  have eq: "timesOneAndHalf c =
      (if 2 ^ 1024 \<le> \<bar>- d\<bar> then NegInfinity
       else if 2 ^ 1025 \<le> m then NegInfinity
       else Number (rat_of_int (- m) / 2))"
    unfolding timesOneAndHalf_def doubleOfHalves_def Let_def d_def [symmetric] sd
      m_def [symmetric] sm
    using d by simp
  show ?thesis
  proof (cases "2 ^ 1024 \<le> \<bar>- d\<bar> \<or> 2 ^ 1025 \<le> m")
    case True
    then have "timesOneAndHalf c = NegInfinity"
      by (auto simp add: eq)
    then show ?thesis ..
  next
    case False
    then have "timesOneAndHalf c = Number (rat_of_int (- m) / 2)"
      by (simp add: eq)
    with bound show ?thesis
      by blast
  qed
qed

lemma tokenStatus_by_chars:
  "tokenStatus (Some r) =
     (if totalChars (stats r) \<le> 33332 then green
      else if totalChars (stats r) \<le> 66666 then yellow
      else red)"
proof -
  let ?c = "totalChars (stats r)"
  consider (mid) "\<bar>?c\<bar> \<le> 3002399751580330"
    | (high) "3002399751580330 < ?c"
    | (low) "?c < - 3002399751580330"
    by linarith
  then show ?thesis
  proof cases
    case mid
    have "((3 * ?c + 1) div 2 < 50000) = (?c \<le> 33332)"
      by presburger
    moreover have "((3 * ?c + 1) div 2 < 100000) = (?c \<le> 66666)"
      by presburger
    moreover have "rat_of_int ((3 * ?c + 1) div 2) < 50000 \<longleftrightarrow> (3 * ?c + 1) div 2 < 50000"
      using of_int_less_iff [of "(3 * ?c + 1) div 2" 50000, where ?'a = rat] by simp
    moreover have "rat_of_int ((3 * ?c + 1) div 2) < 100000 \<longleftrightarrow> (3 * ?c + 1) div 2 < 100000"
      using of_int_less_iff [of "(3 * ?c + 1) div 2" 100000, where ?'a = rat] by simp
    ultimately show ?thesis
      by (simp add: tokenStatus_def estimatedTokens_Some [OF mid])
  next
    case high
    from timesOneAndHalf_large [OF high]
    have "\<not> js_lt (estimatedTokens (Some r)) (Number 50000) \<and>
          \<not> js_lt (estimatedTokens (Some r)) (Number 100000)"
    proof
      assume "timesOneAndHalf ?c = PosInfinity"
      then show ?thesis
        by (simp add: estimatedTokens_def)
    next
      assume "\<exists>x. timesOneAndHalf ?c = Number x \<and> 4503599627370496 \<le> x"
      then obtain x where x: "timesOneAndHalf ?c = Number x" and big: "4503599627370496 \<le> x"
        by blast
      have "x \<le> rat_of_int \<lceil>x\<rceil>"
        by (rule le_of_int_ceiling)
      with big have "4503599627370496 \<le> rat_of_int \<lceil>x\<rceil>"
        by linarith
      then show ?thesis
        by (simp add: estimatedTokens_def x)
    qed
    with high show ?thesis
      by (simp add: tokenStatus_def)
  next
    case low
    from timesOneAndHalf_large_negative [OF low]
    have "js_lt (estimatedTokens (Some r)) (Number 50000)"
    proof
      assume "timesOneAndHalf ?c = NegInfinity"
      then show ?thesis
        by (simp add: estimatedTokens_def)
    next
      assume "\<exists>x. timesOneAndHalf ?c = Number x \<and> x \<le> - 4503599627370496"
      then obtain x where x: "timesOneAndHalf ?c = Number x" and big: "x \<le> - 4503599627370496"
        by blast
      have "rat_of_int \<lceil>x\<rceil> < x + 1"
        using ceiling_correct [of x] by linarith
      with big have "rat_of_int \<lceil>x\<rceil> < 50000"
        by linarith
      then show ?thesis
        by (simp add: estimatedTokens_def x)
    qed
    with low show ?thesis
      by (simp add: tokenStatus_def)
  qed
qed

text \<open>
  The bound of the exact range is sharp: one character more, and the double product
  \<open>4503599627370496.5\<close> is rounded to the even neighbour before the ceiling is
  taken, which gives one token less than the exact ceiling.
\<close>

lemma estimatedTokens_rounded_product:
  "estimatedTokens (Some (resultWithChars 3002399751580331)) = Number 4503599627370496 \<and>
   \<lceil>rat_of_int 3002399751580331 * 1.5\<rceil> = 4503599627370497"
proof
  show "estimatedTokens (Some (resultWithChars 3002399751580331)) = Number 4503599627370496"
    by code_simp
  have "rat_of_int 3002399751580331 * 1.5 = rat_of_int 9007199254740993 / rat_of_int 2"
    by simp
  then have "\<lceil>rat_of_int 3002399751580331 * 1.5\<rceil> = - ((- 9007199254740993) div 2)"
    by (simp only: ceiling_divide_eq_div)
  then show "\<lceil>rat_of_int 3002399751580331 * 1.5\<rceil> = 4503599627370497"
    by simp
qed

lemma ceiling_three_halves: "\<lceil>rat_of_int n * 1.5\<rceil> = (3 * n + 1) div 2"
proof -
  have "rat_of_int n * 1.5 = rat_of_int (3 * n) / rat_of_int 2"
    by simp
  then have "\<lceil>rat_of_int n * 1.5\<rceil> = - ((- (3 * n)) div 2)"
    by (simp only: ceiling_divide_eq_div)
  also have "\<dots> = (3 * n + 1) div 2"
    by presburger
  finally show ?thesis .
qed

lemma js_le_iff_not_lt: "js_le x y \<longleftrightarrow> \<not> js_lt y x"
  by (cases x; cases y) auto

section \<open>Token thresholds\<close>

text \<open>
  Claim C6, as amended. The claim puts 33333 characters below 50000 tokens and on
  green. The code gives \<open>\<lceil>49999.5\<rceil> = 50000\<close> tokens, which is not below 50000, so
  the status is yellow; the last green count is 33332 (49998 tokens). The other two
  cases of the claim hold: 33334 characters give 50001 tokens and yellow, 66667
  characters give 100001 tokens and red (66666 give 99999 and are still yellow).
\<close>

theorem token_boundary_cases:
  assumes "totalChars (stats a) = 33332"
      and "totalChars (stats b) = 33333"
      and "totalChars (stats c) = 33334"
      and "totalChars (stats d) = 66666"
      and "totalChars (stats e) = 66667"
  shows "estimatedTokens (Some a) = Number 49998 \<and> tokenStatus (Some a) = green \<and>
         estimatedTokens (Some b) = Number 50000 \<and> tokenStatus (Some b) = yellow \<and>
         estimatedTokens (Some c) = Number 50001 \<and> tokenStatus (Some c) = yellow \<and>
         estimatedTokens (Some d) = Number 99999 \<and> tokenStatus (Some d) = yellow \<and>
         estimatedTokens (Some e) = Number 100001 \<and> tokenStatus (Some e) = red"
  using assms by (simp add: tokenStatus_by_chars estimatedTokens_Some)

theorem token_boundary_cases_witness:
  "estimatedTokens (Some (resultWithChars 33332)) = Number 49998 \<and>
   tokenStatus (Some (resultWithChars 33332)) = green \<and>
   estimatedTokens (Some (resultWithChars 33333)) = Number 50000 \<and>
   tokenStatus (Some (resultWithChars 33333)) = yellow \<and>
   estimatedTokens (Some (resultWithChars 33334)) = Number 50001 \<and>
   tokenStatus (Some (resultWithChars 33334)) = yellow \<and>
   estimatedTokens (Some (resultWithChars 66666)) = Number 99999 \<and>
   tokenStatus (Some (resultWithChars 66666)) = yellow \<and>
   estimatedTokens (Some (resultWithChars 66667)) = Number 100001 \<and>
   tokenStatus (Some (resultWithChars 66667)) = red"
  by (rule token_boundary_cases) (simp_all add: resultWithChars_def)

text \<open>
  The claim as stated fails at 33333 characters: the estimate is exactly 50000, not
  below it, and the status is yellow, not green.
\<close>

theorem token_33333_counterexample:
  "estimatedTokens (Some (resultWithChars 33333)) = Number 50000 \<and>
   \<not> js_lt (estimatedTokens (Some (resultWithChars 33333))) (Number 50000) \<and>
   tokenStatus (Some (resultWithChars 33333)) = yellow \<and>
   tokenStatus (Some (resultWithChars 33333)) \<noteq> green"
  by (simp add: tokenStatus_by_chars estimatedTokens_Some resultWithChars_def)

text \<open>
  Claim C7. For every result, the estimate is \<^verbatim>\<open>Math.ceil\<close> of the product
  \<^verbatim>\<open>totalChars * 1.5\<close> as double arithmetic computes it, and for every count of
  magnitude up to 3002399751580330, where that product is below \<open>2 ^ 52\<close> and exact,
  it is the ceiling of one and a half times the count. For every result, the status is
  green exactly when the estimate is below 50000, yellow exactly when it is at least
  50000 and below 100000, and red exactly when it is at least 100000.
\<close>

theorem estimatedTokens_tokenStatus_spec:
  "estimatedTokens (Some r) = Math_ceil (timesOneAndHalf (totalChars (stats r))) \<and>
   (\<bar>totalChars (stats r)\<bar> \<le> 3002399751580330 \<longrightarrow>
      estimatedTokens (Some r) = Number (rat_of_int \<lceil>rat_of_int (totalChars (stats r)) * 1.5\<rceil>)) \<and>
   (tokenStatus (Some r) = green \<longleftrightarrow> js_lt (estimatedTokens (Some r)) (Number 50000)) \<and>
   (tokenStatus (Some r) = yellow \<longleftrightarrow>
      js_le (Number 50000) (estimatedTokens (Some r)) \<and>
      js_lt (estimatedTokens (Some r)) (Number 100000)) \<and>
   (tokenStatus (Some r) = red \<longleftrightarrow> js_le (Number 100000) (estimatedTokens (Some r)))"
proof -
  have product: "estimatedTokens (Some r) = Math_ceil (timesOneAndHalf (totalChars (stats r)))"
    by (simp add: estimatedTokens_def)
  have exact: "\<bar>totalChars (stats r)\<bar> \<le> 3002399751580330 \<longrightarrow>
      estimatedTokens (Some r) = Number (rat_of_int \<lceil>rat_of_int (totalChars (stats r)) * 1.5\<rceil>)"
  proof
    assume "\<bar>totalChars (stats r)\<bar> \<le> 3002399751580330"
    then have "estimatedTokens (Some r)
                 = Number (rat_of_int ((3 * totalChars (stats r) + 1) div 2))"
      by (rule estimatedTokens_Some)
    then show "estimatedTokens (Some r)
                 = Number (rat_of_int \<lceil>rat_of_int (totalChars (stats r)) * 1.5\<rceil>)"
      by (simp only: ceiling_three_halves)
  qed
  have order: "js_lt t (Number 50000) \<Longrightarrow> js_lt t (Number 100000)" for t
    by (cases t) simp_all
  have colours:
    "(tokenStatus (Some r) = green \<longleftrightarrow> js_lt (estimatedTokens (Some r)) (Number 50000)) \<and>
     (tokenStatus (Some r) = yellow \<longleftrightarrow>
        js_le (Number 50000) (estimatedTokens (Some r)) \<and>
        js_lt (estimatedTokens (Some r)) (Number 100000)) \<and>
     (tokenStatus (Some r) = red \<longleftrightarrow> js_le (Number 100000) (estimatedTokens (Some r)))"
    using order [of "estimatedTokens (Some r)"]
    by (auto simp add: tokenStatus_def Let_def js_le_iff_not_lt)
  from product exact colours show ?thesis
    by blast
qed

theorem estimatedTokens_tokenStatus_spec_witness:
  "\<bar>35::int\<bar> \<le> 3002399751580330 \<and>
   estimatedTokens (Some threeBlocks) = Number 53 \<and>
   tokenStatus (Some threeBlocks) = green"
proof -
  note spec = estimatedTokens_tokenStatus_spec [of threeBlocks]
  have a: "totalChars (stats threeBlocks) = 35"
    by (simp add: threeBlocks_def)
  have b: "\<lceil>rat_of_int 35 * 1.5\<rceil> = 53"
    using ceiling_three_halves [of 35] by simp
  have range: "\<bar>totalChars (stats threeBlocks)\<bar> \<le> 3002399751580330"
    by (simp add: a)
  from spec range
  have "estimatedTokens (Some threeBlocks)
          = Number (rat_of_int \<lceil>rat_of_int (totalChars (stats threeBlocks)) * 1.5\<rceil>)"
    by blast
  then have tokens: "estimatedTokens (Some threeBlocks) = Number 53"
    by (simp only: a b) simp
  from spec
  have "tokenStatus (Some threeBlocks) = green \<longleftrightarrow>
          js_lt (estimatedTokens (Some threeBlocks)) (Number 50000)"
    by blast
  then have "tokenStatus (Some threeBlocks) = green"
    by (simp add: tokens)
  with tokens show ?thesis
    by simp
qed

section \<open>Advancing to the next block\<close>

text \<open>
  Every state reached from the initial one is settled, so windows never overlap: a new
  one opens only after the callback of the last one has run.
\<close>

lemma settled_mounted: "settled (mounted r)"
  by (simp add: settled_def mounted_def)

lemma settled_step: "settled s \<Longrightarrow> settled (step e s)"
  by (cases e)
     (auto simp add: settled_def step_def flushWatchers_def pendingWatcher_def selectBlock_def
        goToNextBlock_def goToPrevBlock_def scrollToBlockInList_def resultWatcher_def
        scrollTimerCallback_def settleTimerCallback_def Let_def
        split: option.splits list.splits nat.splits if_splits)

lemma settled_run: "settled s \<Longrightarrow> settled (run es s)"
  by (induction es arbitrary: s) (simp_all add: settled_step)

lemma step_ReachBottom: "step ReachBottom s = goToNextBlock s"
  by (simp add: step_def flushWatchers_def goToNextBlock_def scrollToBlockInList_def Let_def)

lemma advancing_drops_triggers:
  "isBlockSwitching s \<Longrightarrow> run (replicate n ReachBottom) s = s"
  by (induction n) (simp_all add: step_ReachBottom goToNextBlock_def)

text \<open>
  Claim C9. When the flag \<^verbatim>\<open>isBlockSwitching\<close> is set, or there is no block, or the
  selected index is that of the last block, \<^verbatim>\<open>goToNextBlock\<close> changes nothing: the
  index, the flag, the pending target, the timers and the scroll requests are all as
  before, also when the call arrives as a \<^verbatim>\<open>reach-bottom\<close> task.
\<close>

theorem goToNextBlock_guards:
  assumes "isBlockSwitching s \<or> blockCount s = 0 \<or> selectedBlockIndex s = blockCount s - 1"
  shows "goToNextBlock s = s \<and> step ReachBottom s = s"
  using assms by (auto simp add: step_ReachBottom goToNextBlock_def)

theorem goToNextBlock_guards_witness:
  "goToNextBlock (step ReachBottom (mounted (Some threeBlocks)))
     = step ReachBottom (mounted (Some threeBlocks)) \<and>
   goToNextBlock (mounted None) = mounted None \<and>
   goToNextBlock (selectBlock 2 (mounted (Some threeBlocks)))
     = selectBlock 2 (mounted (Some threeBlocks))"
proof -
  have a: "isBlockSwitching (step ReachBottom (mounted (Some threeBlocks)))"
    by code_simp
  have b: "blockCount (mounted None) = 0"
    by code_simp
  have c: "selectedBlockIndex (selectBlock 2 (mounted (Some threeBlocks)))
             = blockCount (selectBlock 2 (mounted (Some threeBlocks))) - 1"
    by code_simp
  show ?thesis
    using goToNextBlock_guards [of "step ReachBottom (mounted (Some threeBlocks))"]
          goToNextBlock_guards [of "mounted None"]
          goToNextBlock_guards [of "selectBlock 2 (mounted (Some threeBlocks))"]
          a b c
    by simp
qed

text \<open>
  Claim C2. A debounce window opens with a \<^verbatim>\<open>reach-bottom\<close> signal that finds the
  flag clear, and lasts until the 300 ms callback runs. Take any number \<open>n \<ge> 1\<close> of
  \<^verbatim>\<open>reach-bottom\<close> signals, the first of which opens the window and none of which
  is separated from it by the callback, with at least one block loaded and the selected
  index before the last one (which holds when there are at least two blocks and the
  active block is not the last). Then the selected index has advanced by exactly one,
  whatever \<open>n\<close> is, and the flag is set: the signals after the first were dropped.
\<close>

theorem debounce_one_increment:
  assumes "\<not> isBlockSwitching s"
      and "0 < blockCount s"
      and "selectedBlockIndex s < blockCount s - 1"
      and "1 \<le> n"
  shows "selectedBlockIndex (run (replicate n ReachBottom) s) = selectedBlockIndex s + 1 \<and>
         isBlockSwitching (run (replicate n ReachBottom) s)"
proof -
  from \<open>1 \<le> n\<close> obtain k where n: "n = Suc k"
    by (cases n) simp_all
  let ?t = "goToNextBlock s"
  from assms(1,2,3)
  have adv: "isBlockSwitching ?t"
    and idx: "selectedBlockIndex ?t = selectedBlockIndex s + 1"
    by (simp_all add: goToNextBlock_def scrollToBlockInList_def Let_def)
  have "run (replicate n ReachBottom) s = run (replicate k ReachBottom) ?t"
    by (simp add: n step_ReachBottom)
  also have "\<dots> = ?t"
    using adv by (rule advancing_drops_triggers)
  finally show ?thesis
    using adv idx by simp
qed

theorem debounce_one_increment_witness:
  "selectedBlockIndex (run (replicate 5 ReachBottom) (mounted (Some threeBlocks))) = 1 \<and>
   isBlockSwitching (run (replicate 5 ReachBottom) (mounted (Some threeBlocks)))"
proof -
  have a: "\<not> isBlockSwitching (mounted (Some threeBlocks))"
    by (simp add: mounted_def)
  have b: "selectedBlockIndex (mounted (Some threeBlocks))
             < blockCount (mounted (Some threeBlocks)) - 1"
    by (simp add: mounted_def blockCount_def threeBlocks_def)
  have c: "selectedBlockIndex (mounted (Some threeBlocks)) = 0"
    by (simp add: mounted_def)
  have d: "0 < blockCount (mounted (Some threeBlocks))"
    by (simp add: mounted_def blockCount_def threeBlocks_def)
  show ?thesis
    using debounce_one_increment [OF a d b, of 5] c by simp
qed

section \<open>Replacing the result\<close>

text \<open>
  Claim C3, as amended. When the parent passes a new result (null included), from any
  state, the selected index becomes 0 and the pending scroll target becomes null. The
  watcher does not touch \<^verbatim>\<open>isBlockSwitching\<close>: the flag keeps the value it had, so
  a panel that was advancing is still advancing after the replacement, until the 300 ms
  callback runs.
\<close>

theorem result_replacement_resets:
  "result (step (ResultChanged r) s) = r \<and>
   selectedBlockIndex (step (ResultChanged r) s) = 0 \<and>
   pendingScrollToMessageId (step (ResultChanged r) s) = None \<and>
   isBlockSwitching (step (ResultChanged r) s) = isBlockSwitching s"
  by (simp add: step_def flushWatchers_def resultWatcher_def pendingWatcher_def)

theorem result_replacement_resets_witness:
  "result (step (ResultChanged None) (run [ClickBlock 0, ReachBottom] (mounted (Some threeBlocks))))
     = None \<and>
   selectedBlockIndex
     (step (ResultChanged None) (run [ClickBlock 0, ReachBottom] (mounted (Some threeBlocks))))
     = 0 \<and>
   pendingScrollToMessageId
     (step (ResultChanged None) (run [ClickBlock 0, ReachBottom] (mounted (Some threeBlocks))))
     = None \<and>
   isBlockSwitching
     (step (ResultChanged None) (run [ClickBlock 0, ReachBottom] (mounted (Some threeBlocks))))"
proof -
  have a: "isBlockSwitching (run [ClickBlock 0, ReachBottom] (mounted (Some threeBlocks)))"
    by code_simp
  show ?thesis
    using result_replacement_resets
            [of None "run [ClickBlock 0, ReachBottom] (mounted (Some threeBlocks))"] a
    by simp
qed

text \<open>
  The claim as stated fails when the replacement arrives while the panel is advancing:
  after one \<^verbatim>\<open>reach-bottom\<close> the flag is set, it is still set after the result is
  replaced (by null or by a result), and a \<^verbatim>\<open>reach-bottom\<close> on the new result is
  dropped, leaving the index at 0.
\<close>

theorem result_replacement_counterexample:
  "isBlockSwitching (run [ReachBottom] (mounted (Some threeBlocks))) \<and>
   isBlockSwitching (run [ReachBottom, ResultChanged None] (mounted (Some threeBlocks))) \<and>
   isBlockSwitching
     (run [ReachBottom, ResultChanged (Some threeBlocks)] (mounted (Some threeBlocks))) \<and>
   selectedBlockIndex
     (run [ReachBottom, ResultChanged (Some threeBlocks), ReachBottom]
        (mounted (Some threeBlocks))) = 0"
  by code_simp

section \<open>Looking up a block by its row\<close>

lemma js_index_in_range:
  "0 \<le> i \<Longrightarrow> i < int (length xs) \<Longrightarrow> js_index xs i = Some (xs ! nat i)"
  by (simp add: js_index_def)

lemma js_index_out_of_range:
  "i < 0 \<or> int (length xs) \<le> i \<Longrightarrow> js_index xs i = None"
  by (auto simp add: js_index_def)

lemma getBlockAtReversedIndex_in_range:
  assumes "result s = Some r" and "0 \<le> p" and "p < blockCount s"
  shows "getBlockAtReversedIndex s p = Some (blocks r ! nat (blockCount s - 1 - p))"
  using assms by (simp add: getBlockAtReversedIndex_def blockCount_def js_index_def)

lemma getBlockAtReversedIndex_out_of_range:
  assumes "result s = None \<or> i < 0 \<or> blockCount s \<le> i"
  shows "getBlockAtReversedIndex s i = None"
  using assms
  by (auto simp add: getBlockAtReversedIndex_def blockCount_def js_index_def
        split: option.splits)

lemma getBlockAtReversedIndex_selectedBlockIndex_update [simp]:
  "getBlockAtReversedIndex (s\<lparr>selectedBlockIndex := i\<rparr>) p = getBlockAtReversedIndex s p"
  by (simp add: getBlockAtReversedIndex_def)

lemma getBlockAtReversedIndex_pending_update [simp]:
  "getBlockAtReversedIndex (s\<lparr>pendingScrollToMessageId := m\<rparr>) p = getBlockAtReversedIndex s p"
  by (simp add: getBlockAtReversedIndex_def)

lemma blockCount_selectBlock [simp]: "blockCount (selectBlock i s) = blockCount s"
  by (simp add: selectBlock_def blockCount_def Let_def split: option.splits)

lemma result_selectBlock [simp]: "result (selectBlock i s) = result s"
  by (simp add: selectBlock_def Let_def split: option.splits)

lemma selectedBlockIndex_selectBlock [simp]: "selectedBlockIndex (selectBlock i s) = i"
  by (simp add: selectBlock_def Let_def split: option.splits)

lemma getBlockAtReversedIndex_selectBlock [simp]:
  "getBlockAtReversedIndex (selectBlock i s) p = getBlockAtReversedIndex s p"
  by (simp add: getBlockAtReversedIndex_def)

lemma hitMessageIds_cong:
  "result a = result b \<Longrightarrow> selectedBlockIndex a = selectedBlockIndex b \<Longrightarrow>
   hitMessageIds a = hitMessageIds b"
  by (simp add: hitMessageIds_def blockCount_def getBlockAtReversedIndex_def)

text \<open>
  Claim C5. With a result loaded and a row \<open>p\<close> of the block list in
  \<open>[0, blockCount)\<close>, the block shown for row \<open>p\<close> is the block at position
  \<open>blockCount - 1 - p\<close> of the stored list, which is the block at position \<open>p\<close>
  of the stored list reversed. After \<^verbatim>\<open>selectBlock(p)\<close> the selected index is
  \<open>p\<close>, the start timestamp read back from the active block is that block's, and
  \<^verbatim>\<open>currentBlockMessages\<close> and \<^verbatim>\<open>hitMessageIds\<close> are computed from the messages
  of that same block.
\<close>

theorem reversal_invariant:
  assumes "result s = Some r" and "0 \<le> p" and "p < blockCount s"
  shows "getBlockAtReversedIndex s p = Some (blocks r ! nat (blockCount s - 1 - p)) \<and>
         blocks r ! nat (blockCount s - 1 - p) = rev (blocks r) ! nat p \<and>
         selectedBlockIndex (selectBlock p s) = p \<and>
         map_option startTs
             (getBlockAtReversedIndex (selectBlock p s) (selectedBlockIndex (selectBlock p s)))
           = Some (startTs (blocks r ! nat (blockCount s - 1 - p))) \<and>
         currentBlockMessages (selectBlock p s)
           = map toChatRecordMessage (messages (blocks r ! nat (blockCount s - 1 - p))) \<and>
         hitMessageIds (selectBlock p s)
           = map id_msg (filter isHit (messages (blocks r ! nat (blockCount s - 1 - p))))"
proof -
  let ?b = "blocks r ! nat (blockCount s - 1 - p)"
  have look: "getBlockAtReversedIndex s p = Some ?b"
    using assms by (rule getBlockAtReversedIndex_in_range)
  have len: "blockCount s = int (length (blocks r))"
    using assms(1) by (simp add: blockCount_def)
  have "nat p < length (blocks r)"
    using assms(2,3) len by simp
  then have "rev (blocks r) ! nat p = blocks r ! (length (blocks r) - Suc (nat p))"
    by (rule rev_nth)
  moreover have "length (blocks r) - Suc (nat p) = nat (blockCount s - 1 - p)"
    using assms(2,3) len by simp
  ultimately have r: "?b = rev (blocks r) ! nat p"
    by simp
  have nz: "blockCount s \<noteq> 0"
    using assms(2,3) by simp
  show ?thesis
    using look r nz by (simp add: currentBlockMessages_def hitMessageIds_def)
qed

theorem reversal_invariant_witness:
  "getBlockAtReversedIndex (mounted (Some threeBlocks)) 2 = Some oldBlock \<and>
   map_option startTs
     (getBlockAtReversedIndex (selectBlock 2 (mounted (Some threeBlocks)))
        (selectedBlockIndex (selectBlock 2 (mounted (Some threeBlocks)))))
     = Some 1700000001 \<and>
   hitMessageIds (selectBlock 2 (mounted (Some threeBlocks))) = [2, 3]"
proof -
  have a: "result (mounted (Some threeBlocks)) = Some threeBlocks"
    by (simp add: mounted_def)
  have b: "(2::int) < blockCount (mounted (Some threeBlocks))"
    by (simp add: mounted_def blockCount_def threeBlocks_def)
  have c: "blocks threeBlocks ! nat (blockCount (mounted (Some threeBlocks)) - 1 - 2) = oldBlock"
    by (simp add: mounted_def blockCount_def threeBlocks_def)
  have d: "map id_msg (filter isHit (messages oldBlock)) = [2, 3]"
    by (simp add: oldBlock_def message_def)
  have e: "startTs oldBlock = 1700000001"
    by (simp add: oldBlock_def)
  show ?thesis
    using reversal_invariant [OF a _ b] c d e by simp
qed

text \<open>
  Claim C10. For every state and every index \<open>i\<close> that has no block behind it (there
  is no result, or \<open>i\<close> is negative, or \<open>i\<close> is at or beyond the number of blocks,
  which covers every index when the result has no block), the lookup gives null, and
  with \<open>i\<close> as the selected index both \<^verbatim>\<open>currentBlockMessages\<close> and
  \<^verbatim>\<open>hitMessageIds\<close> are the empty list. The lookup is a total function into
  \<open>block option\<close>: no input makes it fail.
\<close>

theorem projection_total:
  assumes "result s = None \<or> i < 0 \<or> blockCount s \<le> i"
  shows "getBlockAtReversedIndex s i = None \<and>
         currentBlockMessages (s\<lparr>selectedBlockIndex := i\<rparr>) = [] \<and>
         hitMessageIds (s\<lparr>selectedBlockIndex := i\<rparr>) = []"
proof -
  have "getBlockAtReversedIndex s i = None"
    using assms by (rule getBlockAtReversedIndex_out_of_range)
  then show ?thesis
    by (simp add: currentBlockMessages_def hitMessageIds_def)
qed

theorem projection_total_witness:
  "getBlockAtReversedIndex (mounted None) 0 = None \<and>
   currentBlockMessages (mounted None\<lparr>selectedBlockIndex := 0\<rparr>) = [] \<and>
   hitMessageIds (mounted None\<lparr>selectedBlockIndex := 0\<rparr>) = [] \<and>
   getBlockAtReversedIndex (mounted (Some (resultWithChars 0))) 0 = None \<and>
   currentBlockMessages (mounted (Some (resultWithChars 0))\<lparr>selectedBlockIndex := 0\<rparr>) = [] \<and>
   hitMessageIds (mounted (Some (resultWithChars 0))\<lparr>selectedBlockIndex := 0\<rparr>) = [] \<and>
   getBlockAtReversedIndex (mounted (Some threeBlocks)) 3 = None \<and>
   currentBlockMessages (mounted (Some threeBlocks)\<lparr>selectedBlockIndex := 3\<rparr>) = [] \<and>
   hitMessageIds (mounted (Some threeBlocks)\<lparr>selectedBlockIndex := 3\<rparr>) = [] \<and>
   getBlockAtReversedIndex (mounted (Some threeBlocks)) (- 1) = None \<and>
   currentBlockMessages (mounted (Some threeBlocks)\<lparr>selectedBlockIndex := - 1\<rparr>) = [] \<and>
   hitMessageIds (mounted (Some threeBlocks)\<lparr>selectedBlockIndex := - 1\<rparr>) = []"
proof -
  have a: "result (mounted None) = None"
    by (simp add: mounted_def)
  have b: "blockCount (mounted (Some (resultWithChars 0))) \<le> 0"
    by (simp add: mounted_def blockCount_def resultWithChars_def)
  have c: "blockCount (mounted (Some threeBlocks)) \<le> 3"
    by (simp add: mounted_def blockCount_def threeBlocks_def)
  have d: "(- 1 :: int) < 0"
    by simp
  show ?thesis
    using projection_total [of "mounted None" 0]
          projection_total [of "mounted (Some (resultWithChars 0))" 0]
          projection_total [of "mounted (Some threeBlocks)" 3]
          projection_total [of "mounted (Some threeBlocks)" "- 1"]
          a b c d
    by simp
qed

section \<open>Selecting a block\<close>

lemma find_as_filter:
  "find P xs = (case filter P xs of [] \<Rightarrow> None | x # ys \<Rightarrow> Some x)"
  by (induction xs) simp_all

text \<open>
  Claim C4, as amended. With a result loaded and a row \<open>i\<close> in \<open>[0, blockCount)\<close>,
  \<^verbatim>\<open>selectBlock(i)\<close> sets the selected index to \<open>i\<close>. When the block of row
  \<open>i\<close> has a message with the hit flag, the pending scroll target becomes the id of
  the first such message. When it has none, the pending scroll target is left as it
  was: it is not cleared.
\<close>

theorem selectBlock_effect:
  assumes "result s = Some r" and "0 \<le> i" and "i < blockCount s"
  shows "selectedBlockIndex (selectBlock i s) = i \<and>
         pendingScrollToMessageId (selectBlock i s) =
           (case filter isHit (messages (blocks r ! nat (blockCount s - 1 - i))) of
              [] \<Rightarrow> pendingScrollToMessageId s
            | firstHit # others \<Rightarrow> Some (id_msg firstHit))"
proof -
  let ?b = "blocks r ! nat (blockCount s - 1 - i)"
  have look: "getBlockAtReversedIndex s i = Some ?b"
    using assms by (rule getBlockAtReversedIndex_in_range)
  show ?thesis
    using look
    by (simp add: selectBlock_def Let_def find_as_filter split: list.splits)
qed

theorem selectBlock_effect_witness:
  "selectedBlockIndex (selectBlock 2 (mounted (Some threeBlocks))) = 2 \<and>
   pendingScrollToMessageId (selectBlock 2 (mounted (Some threeBlocks))) = Some 2 \<and>
   selectedBlockIndex (selectBlock 1 (mounted (Some threeBlocks))) = 1 \<and>
   pendingScrollToMessageId (selectBlock 1 (mounted (Some threeBlocks))) = None"
proof -
  have a: "result (mounted (Some threeBlocks)) = Some threeBlocks"
    by (simp add: mounted_def)
  have b: "(2::int) < blockCount (mounted (Some threeBlocks))"
    and b': "(1::int) < blockCount (mounted (Some threeBlocks))"
    by (simp_all add: mounted_def blockCount_def threeBlocks_def)
  have c: "blocks threeBlocks ! nat (blockCount (mounted (Some threeBlocks)) - 1 - 2) = oldBlock"
    and c': "blocks threeBlocks ! nat (blockCount (mounted (Some threeBlocks)) - 1 - 1) = midBlock"
    by (simp_all add: mounted_def blockCount_def threeBlocks_def)
  have d: "filter isHit (messages oldBlock) = [message 2 True, message 3 True]"
    and d': "filter isHit (messages midBlock) = []"
    by (simp_all add: oldBlock_def midBlock_def message_def)
  have e: "id_msg (message 2 True) = 2"
    by (simp add: message_def)
  have f: "pendingScrollToMessageId (mounted (Some threeBlocks)) = None"
    by (simp add: mounted_def)
  show ?thesis
    using selectBlock_effect [OF a _ b] selectBlock_effect [OF a _ b'] c c' d d' e f
    by simp
qed

text \<open>
  The claim as stated fails when a target is still pending: after a click on row 0
  (first hit 6) the block of row 1 has no hit, and after \<^verbatim>\<open>selectBlock(1)\<close> the
  pending target is still 6, not null.
\<close>

theorem selectBlock_no_hit_counterexample:
  "getBlockAtReversedIndex (selectBlock 0 (mounted (Some threeBlocks))) 1 = Some midBlock \<and>
   filter isHit (messages midBlock) = [] \<and>
   pendingScrollToMessageId (selectBlock 0 (mounted (Some threeBlocks))) = Some 6 \<and>
   pendingScrollToMessageId (selectBlock 1 (selectBlock 0 (mounted (Some threeBlocks)))) = Some 6 \<and>
   pendingScrollToMessageId (selectBlock 1 (selectBlock 0 (mounted (Some threeBlocks)))) \<noteq> None"
  by code_simp

section \<open>Scrolling the message list to the pending target\<close>

lemma step_ScrollTimerFires:
  "scrollTimers s = m # ms \<Longrightarrow>
   step ScrollTimerFires s = scrollTimerCallback m (s\<lparr>scrollTimers := ms\<rparr>)"
  by (simp add: step_def flushWatchers_def scrollTimerCallback_def pendingWatcher_def Let_def)

lemma messageListRendered_scrollTimers_update [simp]:
  "messageListRendered (s\<lparr>scrollTimers := ts\<rparr>) = messageListRendered s"
  by (simp add: messageListRendered_def currentBlockMessages_def blockCount_def
        getBlockAtReversedIndex_def)

text \<open>
  In the undisturbed case the mechanism does what it is for: from a state with no
  pending target and no outstanding callback, a click on a row whose block has a hit,
  followed by the callback, sends the message list the id of the first hit of the block
  that is then active.
\<close>

lemma select_then_scroll:
  assumes "result s = Some r" and "0 \<le> i" and "i < blockCount s"
      and "\<not> isLoading s"
      and "scrollTimers s = []" and "pendingScrollToMessageId s = None"
      and "filter isHit (messages (blocks r ! nat (blockCount s - 1 - i))) = h # hs"
  shows "messageListScrolls (run [ClickBlock i, ScrollTimerFires] s)
           = messageListScrolls s @ [id_msg h] \<and>
         selectedBlockIndex (run [ClickBlock i, ScrollTimerFires] s) = i \<and>
         hd (hitMessageIds (run [ClickBlock i, ScrollTimerFires] s)) = id_msg h"
proof -
  let ?b = "blocks r ! nat (blockCount s - 1 - i)"
  have look: "getBlockAtReversedIndex s i = Some ?b"
    using assms(1-3) by (rule getBlockAtReversedIndex_in_range)
  have found: "find isHit (messages ?b) = Some h"
    using assms(7) by (simp add: find_as_filter)
  have nonempty: "messages ?b \<noteq> []"
    using assms(7) by auto
  have nz: "blockCount s \<noteq> 0" and blk: "blocks r \<noteq> []"
    using assms(1-3) by (auto simp add: blockCount_def)
  define t where "t = step (ClickBlock i) s"
  have t: "t = s\<lparr>selectedBlockIndex := i, pendingScrollToMessageId := Some (id_msg h),
                  scrollTimers := [id_msg h]\<rparr>"
    using look found assms(5,6)
    by (simp add: t_def step_def flushWatchers_def selectBlock_def pendingWatcher_def Let_def)
  have rendered: "messageListRendered (t\<lparr>scrollTimers := []\<rparr>)"
    using look nonempty nz blk assms(1,4)
    by (simp add: t messageListRendered_def currentBlockMessages_def blockCount_def
          getBlockAtReversedIndex_def)
  have hits: "hitMessageIds (t\<lparr>scrollTimers := []\<rparr>) = id_msg h # map id_msg hs"
    using look nz assms(1,7)
    by (simp add: t hitMessageIds_def blockCount_def getBlockAtReversedIndex_def)
  have "run [ClickBlock i, ScrollTimerFires] s = step ScrollTimerFires t"
    by (simp add: t_def)
  also have "\<dots> = scrollTimerCallback (id_msg h) (t\<lparr>scrollTimers := []\<rparr>)"
    by (simp add: t step_def flushWatchers_def scrollTimerCallback_def pendingWatcher_def Let_def)
  finally have "run [ClickBlock i, ScrollTimerFires] s
      = (t\<lparr>scrollTimers := []\<rparr>)
          \<lparr>messageListScrolls := messageListScrolls s @ [id_msg h],
           pendingScrollToMessageId := None\<rparr>"
    using rendered by (simp add: scrollTimerCallback_def Let_def t)
  moreover
  have "hitMessageIds ((t\<lparr>scrollTimers := []\<rparr>)
          \<lparr>messageListScrolls := messageListScrolls s @ [id_msg h],
           pendingScrollToMessageId := None\<rparr>) = hitMessageIds (t\<lparr>scrollTimers := []\<rparr>)"
    by (rule hitMessageIds_cong) simp_all
  ultimately show ?thesis
    using hits by (simp add: t)
qed

text \<open>
  Claim C1, as amended. When the wait ends and the 100 ms callback runs, it does not
  look at the pending target or at the selected index: whenever the message list is
  rendered it receives \<^verbatim>\<open>scrollToMessage\<close> with the id the callback captured when
  the wait began, whether or not the target was cleared or replaced in the meantime,
  and the pending target is then set to null. The command is dropped only when the
  message list is not rendered. The callback changes neither the selected index nor the
  result.
\<close>

theorem scroll_timer_not_guarded:
  assumes "scrollTimers s = m # ms"
  shows "messageListScrolls (step ScrollTimerFires s) =
           (if messageListRendered s then messageListScrolls s @ [m] else messageListScrolls s) \<and>
         pendingScrollToMessageId (step ScrollTimerFires s) = None \<and>
         scrollTimers (step ScrollTimerFires s) = ms \<and>
         selectedBlockIndex (step ScrollTimerFires s) = selectedBlockIndex s \<and>
         result (step ScrollTimerFires s) = result s"
  using assms by (simp add: step_ScrollTimerFires scrollTimerCallback_def Let_def)

theorem scroll_timer_not_guarded_witness:
  "messageListScrolls (step ScrollTimerFires (run [ClickBlock 2] (mounted (Some threeBlocks)))) = [2] \<and>
   pendingScrollToMessageId
     (step ScrollTimerFires (run [ClickBlock 2] (mounted (Some threeBlocks)))) = None \<and>
   scrollTimers (step ScrollTimerFires (run [ClickBlock 2] (mounted (Some threeBlocks)))) = []"
proof -
  have a: "scrollTimers (run [ClickBlock 2] (mounted (Some threeBlocks))) = [2]"
    by code_simp
  have b: "messageListRendered (run [ClickBlock 2] (mounted (Some threeBlocks)))"
    by code_simp
  have c: "messageListScrolls (run [ClickBlock 2] (mounted (Some threeBlocks))) = []"
    by code_simp
  show ?thesis
    using scroll_timer_not_guarded [OF a] b c by simp
qed

text \<open>
  The claim as stated fails. Click row 0 (first hit 6), then row 2 before the first
  wait ends: the pending target is now 2 and the active block holds the messages 1, 2
  and 3. The first callback then sends \<^verbatim>\<open>scrollToMessage(6)\<close> to the message list,
  for a message of another block. The same happens when the result is replaced during
  the wait: the pending target is null, and the callback still sends 6 to the message
  list, which shows a block of the new result.
\<close>

theorem stale_scroll_counterexample:
  "pendingScrollToMessageId (run [ClickBlock 0] (mounted (Some threeBlocks))) = Some 6 \<and>
   pendingScrollToMessageId (run [ClickBlock 0, ClickBlock 2] (mounted (Some threeBlocks)))
     = Some 2 \<and>
   selectedBlockIndex (run [ClickBlock 0, ClickBlock 2] (mounted (Some threeBlocks))) = 2 \<and>
   map id_msg (currentBlockMessages
     (run [ClickBlock 0, ClickBlock 2] (mounted (Some threeBlocks)))) = [1, 2, 3] \<and>
   messageListScrolls (run [ClickBlock 0, ClickBlock 2] (mounted (Some threeBlocks))) = [] \<and>
   messageListScrolls
     (run [ClickBlock 0, ClickBlock 2, ScrollTimerFires] (mounted (Some threeBlocks))) = [6] \<and>
   pendingScrollToMessageId
     (run [ClickBlock 0, ResultChanged (Some (threeBlocks\<lparr>blocks := [oldBlock]\<rparr>))]
        (mounted (Some threeBlocks))) = None \<and>
   map id_msg (currentBlockMessages
     (run [ClickBlock 0, ResultChanged (Some (threeBlocks\<lparr>blocks := [oldBlock]\<rparr>))]
        (mounted (Some threeBlocks)))) = [1, 2, 3] \<and>
   messageListScrolls
     (run [ClickBlock 0, ResultChanged (Some (threeBlocks\<lparr>blocks := [oldBlock]\<rparr>)),
           ScrollTimerFires]
        (mounted (Some threeBlocks))) = [6]"
  by code_simp

section \<open>Selecting the sessions of a day\<close>

lemma set_fold_Set_add: "set (fold Set_add ids s) = set s \<union> set ids"
  by (induction ids arbitrary: s) (auto simp add: Set_add_def)

lemma set_fold_Set_delete: "set (fold Set_delete ids s) = set s - set ids"
  by (induction ids arbitrary: s) (auto simp add: Set_delete_def)

lemma list_all_Set_has: "list_all (Set_has s) ids \<longleftrightarrow> set ids \<subseteq> set s"
  by (auto simp add: list_all_iff Set_has_def)

lemma set_selectedSet_selectedIdsWatcher:
  "set (selectedSet (selectedIdsWatcher s)) = set (selectedIds s)"
  by (simp add: selectedIdsWatcher_def set_fold_Set_add)

lemma selectedIdsWatcher_after_selectDate:
  "set (selectedSet (selectedIdsWatcher (selectDate date s)))
     = set (selectedSet (selectDate date s))"
  by (simp add: set_selectedSet_selectedIdsWatcher selectDate_def Let_def)

lemma getSessionIdsForDate_selectDate [simp]:
  "getSessionIdsForDate (selectDate d s) d' = getSessionIdsForDate s d'"
  by (simp add: getSessionIdsForDate_def selectDate_def Let_def)

lemma set_selectedSet_selectDate:
  "set (selectedSet (selectDate date s)) =
     (if set (getSessionIdsForDate s date) \<subseteq> set (selectedSet s)
      then set (selectedSet s) - set (getSessionIdsForDate s date)
      else set (selectedSet s) \<union> set (getSessionIdsForDate s date))"
  by (simp add: selectDate_def Let_def list_all_Set_has set_fold_Set_add set_fold_Set_delete)

lemma isDateFullySelected_iff:
  "isDateFullySelected s date \<longleftrightarrow>
     getSessionIdsForDate s date \<noteq> [] \<and>
     set (getSessionIdsForDate s date) \<subseteq> set (selectedSet s)"
  by (simp add: isDateFullySelected_def Let_def list_all_Set_has)

text \<open>
  Claim C8, as amended. \<^verbatim>\<open>isDateFullySelected\<close> is true iff the group is not empty
  and every id of the group is in the selection set. \<^verbatim>\<open>selectDate\<close> is a toggle:
  when some id of the group is not selected it adds the whole group, and the group is
  then fully selected; when every id of the group is selected already (the empty group
  included) it removes the whole group, and the group is then not fully selected. So a
  second call in a row undoes the first instead of leaving the set as it is: from a set
  in which the group was not fully selected, two calls give that set without the group;
  from a set in which it was, two calls give the set back. The array bound to the
  outside is the new set after every call.
\<close>

theorem selectDate_toggles_group:
  "(isDateFullySelected s date \<longleftrightarrow>
      getSessionIdsForDate s date \<noteq> [] \<and>
      set (getSessionIdsForDate s date) \<subseteq> set (selectedSet s)) \<and>
   set (selectedSet (selectDate date s)) =
     (if set (getSessionIdsForDate s date) \<subseteq> set (selectedSet s)
      then set (selectedSet s) - set (getSessionIdsForDate s date)
      else set (selectedSet s) \<union> set (getSessionIdsForDate s date)) \<and>
   (isDateFullySelected (selectDate date s) date \<longleftrightarrow>
      \<not> set (getSessionIdsForDate s date) \<subseteq> set (selectedSet s)) \<and>
   set (selectedSet (selectDate date (selectDate date s))) =
     (if set (getSessionIdsForDate s date) \<subseteq> set (selectedSet s)
      then set (selectedSet s)
      else set (selectedSet s) - set (getSessionIdsForDate s date)) \<and>
   selectedIds (selectDate date s) = selectedSet (selectDate date s)"
proof -
  let ?ids = "set (getSessionIdsForDate s date)"
  let ?S = "set (selectedSet s)"
  have after: "isDateFullySelected (selectDate date s) date \<longleftrightarrow> \<not> ?ids \<subseteq> ?S"
  proof (cases "?ids \<subseteq> ?S")
    case True
    have "\<not> (getSessionIdsForDate s date \<noteq> [] \<and> ?ids \<subseteq> ?S - ?ids)"
    proof
      assume h: "getSessionIdsForDate s date \<noteq> [] \<and> ?ids \<subseteq> ?S - ?ids"
      then obtain x where "x \<in> ?ids"
        by (cases "getSessionIdsForDate s date") auto
      with h show False
        by auto
    qed
    with True show ?thesis
      by (simp add: isDateFullySelected_iff set_selectedSet_selectDate)
  next
    case False
    then have "getSessionIdsForDate s date \<noteq> []"
      by auto
    with False show ?thesis
      by (simp add: isDateFullySelected_iff set_selectedSet_selectDate)
  qed
  have twice: "set (selectedSet (selectDate date (selectDate date s))) =
     (if ?ids \<subseteq> ?S then ?S else ?S - ?ids)"
    unfolding set_selectedSet_selectDate [of date "selectDate date s"]
      getSessionIdsForDate_selectDate set_selectedSet_selectDate [of date s]
    by auto
  have mirror: "selectedIds (selectDate date s) = selectedSet (selectDate date s)"
    by (simp add: selectDate_def Let_def)
  show ?thesis
    using after twice mirror isDateFullySelected_iff [of s date]
      set_selectedSet_selectDate [of date s]
    by simp
qed

theorem selectDate_toggles_group_witness:
  "\<not> isDateFullySelected oneDay ''2024/1/5'' \<and>
   set (selectedSet (selectDate ''2024/1/5'' oneDay)) = {1, 2} \<and>
   isDateFullySelected (selectDate ''2024/1/5'' oneDay) ''2024/1/5'' \<and>
   set (selectedSet (selectDate ''2024/1/5'' (selectDate ''2024/1/5'' oneDay))) = {}"
proof -
  have a: "getSessionIdsForDate oneDay ''2024/1/5'' = [1, 2]"
    by code_simp
  have b: "selectedSet oneDay = []"
    by (simp add: oneDay_def)
  show ?thesis
    using selectDate_toggles_group [of oneDay "''2024/1/5''"] a b by simp
qed

text \<open>
  The claim as stated fails on one day with the sessions 1 and 2 and nothing selected:
  the first call selects both, the second call gives the empty set, which is not the
  set after the first call, and the group is then not fully selected although
  \<^verbatim>\<open>selectDate\<close> has just been called on it.
\<close>

theorem selectDate_counterexample:
  "getSessionIdsForDate oneDay ''2024/1/5'' = [1, 2] \<and>
   selectedSet (selectDate ''2024/1/5'' oneDay) = [1, 2] \<and>
   selectedSet (selectDate ''2024/1/5'' (selectDate ''2024/1/5'' oneDay)) = [] \<and>
   selectedSet (selectDate ''2024/1/5'' (selectDate ''2024/1/5'' oneDay))
     \<noteq> selectedSet (selectDate ''2024/1/5'' oneDay) \<and>
   \<not> isDateFullySelected (selectDate ''2024/1/5'' (selectDate ''2024/1/5'' oneDay)) ''2024/1/5''"
  by code_simp

end
